theory Spec2Isabelle
  imports Main
begin

section \<open>The session manager of \<^verbatim>\<open>src/lib/context/auth-context.tsx\<close>\<close>

text \<open>
  \<^verbatim>\<open>AuthContextProvider\<close> is a React component: its \<^verbatim>\<open>useState\<close> cells,
  the browser's \<^verbatim>\<open>localStorage\<close> and the promises still pending are made one explicit
  state, which every operation takes and returns.  An exception is a value: an operation
  returns either \<open>Inl\<close> of the error or \<open>Inr\<close> of its result, together with the state
  reached.  A promise settles to \<open>Fulfilled\<close> or to \<open>Rejected\<close>.
\<close>

subsection \<open>Data\<close>

text \<open>
  \<^verbatim>\<open>KeyPair\<close>, \<^verbatim>\<open>UserFull\<close> and \<^verbatim>\<open>NotificationsResponseSummary\<close> are declared in
  files outside \<^verbatim>\<open>auth-context.tsx\<close>.  The component reads \<^verbatim>\<open>publicKey\<close> of a key pair,
  \<^verbatim>\<open>id\<close> of a user and \<^verbatim>\<open>badgeCount\<close> of a summary; the other fields are carried
  along untouched (\<open>privateKey\<close>, \<open>profile\<close>).  The user id is taken to be a string,
  whose only falsy value is the empty one.  \<^verbatim>\<open>UserWithKey = UserFull & { keyPair: KeyPair }\<close>
  is the record extension.  A \<^verbatim>\<open>Date\<close> is its time value in milliseconds, and the text
  \<^verbatim>\<open>toISOString\<close> gives for it is identified with that value, so that
  \<^verbatim>\<open>new Date(d.toISOString())\<close> is \<open>d\<close>.
\<close>

record keypair =
  publicKey :: string
  privateKey :: string

record user_full =
  user_id :: string
  profile :: string

record user_with_key = user_full +
  keyPair :: keypair

record summary =
  badgeCount :: int

type_synonym date = int

datatype err = StorageError

datatype 'a promise = Fulfilled 'a | Rejected

text \<open>The two URLs the component builds:
  \<^verbatim>\<open>/api/signer/${publicKey}/user\<close> and
  \<^verbatim>\<open>/api/user/${id}/notifications?last_time=${iso}\<close>.\<close>

datatype url = SignerUserUrl string | NotificationsUrl string date

text \<open>A continuation waiting for a promise: the rest of \<^verbatim>\<open>manageUser\<close> after its
  \<^verbatim>\<open>await\<close>, and the \<^verbatim>\<open>then\<close> callback of the \<^verbatim>\<open>Promise.all\<close> over the key pairs
  that \<^verbatim>\<open>handleUserAuth\<close> read.\<close>

datatype task = ManageUser keypair | FetchUsers "keypair list"

text \<open>
  The state.  \<open>user\<close>, \<open>users\<close>, \<open>error\<close>, \<open>loading\<close>,
  \<open>lastCheckedNotifications\<close> and \<open>timelineCursor\<close> are the \<^verbatim>\<open>useState\<close> cells with
  their initial values in \<open>initial\<close> (\<^verbatim>\<open>userBookmarks\<close> is never set and is left out).
  \<open>ls_keyPair\<close>, \<open>ls_keyPairs\<close> and \<open>ls_lastChecked\<close> are the \<^verbatim>\<open>localStorage\<close>
  entries \<^verbatim>\<open>'keyPair'\<close>, \<^verbatim>\<open>'keyPairs'\<close> and \<^verbatim>\<open>'lastChecked'\<close>; \<open>ls_available\<close> tells
  whether the storage can be used at all.  \<open>pending\<close> holds the continuations not yet run.
\<close>

record world =
  user :: "user_with_key option"
  users :: "user_with_key list"
  error :: "err option"
  loading :: bool
  lastCheckedNotifications :: "date option"
  timelineCursor :: "date option"
  ls_keyPair :: "keypair option"
  ls_keyPairs :: "keypair list"
  ls_lastChecked :: "date option"
  ls_available :: bool
  pending :: "task list"

definition initial :: "keypair option \<Rightarrow> keypair list \<Rightarrow> date option \<Rightarrow> bool \<Rightarrow> world" where
  "initial kp kps lc av =
     \<lparr>user = None, users = [], error = None, loading = True,
      lastCheckedNotifications = None, timelineCursor = None,
      ls_keyPair = kp, ls_keyPairs = kps, ls_lastChecked = lc, ls_available = av,
      pending = []\<rparr>"

subsection \<open>Operations that may throw\<close>

type_synonym 'a io = "world \<Rightarrow> (err + 'a) \<times> world"

definition return_io :: "'a \<Rightarrow> 'a io" where
  "return_io x w = (Inr x, w)"

definition throw_io :: "err \<Rightarrow> 'a io" where
  "throw_io e w = (Inl e, w)"

definition bind_io :: "'a io \<Rightarrow> ('a \<Rightarrow> 'b io) \<Rightarrow> 'b io" where
  "bind_io m f w = (case m w of (Inl e, w') \<Rightarrow> (Inl e, w') | (Inr x, w') \<Rightarrow> f x w')"

definition catch_io :: "'a io \<Rightarrow> (err \<Rightarrow> 'a io) \<Rightarrow> 'a io" where
  "catch_io m h w = (case m w of (Inl e, w') \<Rightarrow> h e w' | (Inr x, w') \<Rightarrow> (Inr x, w'))"

definition modify_io :: "(world \<Rightarrow> world) \<Rightarrow> unit io" where
  "modify_io g w = (Inr (), g w)"

text \<open>The \<^verbatim>\<open>useState\<close> setters.\<close>

definition setUser :: "user_with_key option \<Rightarrow> unit io" where
  "setUser v = modify_io (\<lambda>w. w\<lparr>user := v\<rparr>)"

definition setUsers :: "user_with_key list \<Rightarrow> unit io" where
  "setUsers v = modify_io (\<lambda>w. w\<lparr>users := v\<rparr>)"

definition setError :: "err option \<Rightarrow> unit io" where
  "setError v = modify_io (\<lambda>w. w\<lparr>error := v\<rparr>)"

definition setLoading :: "bool \<Rightarrow> unit io" where
  "setLoading v = modify_io (\<lambda>w. w\<lparr>loading := v\<rparr>)"

definition setLastCheckedNotifications :: "date option \<Rightarrow> unit io" where
  "setLastCheckedNotifications v = modify_io (\<lambda>w. w\<lparr>lastCheckedNotifications := v\<rparr>)"

definition setTimelineCursor :: "date option \<Rightarrow> unit io" where
  "setTimelineCursor v = modify_io (\<lambda>w. w\<lparr>timelineCursor := v\<rparr>)"

text \<open>Starting an asynchronous computation leaves its continuation pending.\<close>

definition spawn :: "task \<Rightarrow> unit io" where
  "spawn t = modify_io (\<lambda>w. w\<lparr>pending := pending w @ [t]\<rparr>)"

subsection \<open>The key-pair store\<close>

text \<open>
  The module \<^verbatim>\<open>../storage\<close> with \<^verbatim>\<open>getKeyPair\<close>, \<^verbatim>\<open>setKeyPair\<close>, \<^verbatim>\<open>getKeyPairs\<close>,
  \<^verbatim>\<open>addKeyPair\<close> and \<^verbatim>\<open>removeKeyPair\<close> is not among the sources.  The component's own
  comment places the active key pair under \<^verbatim>\<open>'keyPair'\<close> and the list of all key pairs
  under \<^verbatim>\<open>'keyPairs'\<close>, and \<^verbatim>\<open>signOut\<close> removes the entry \<^verbatim>\<open>'keyPair'\<close> from
  \<^verbatim>\<open>localStorage\<close> itself.
\<close>

text \<open>Modelled from the spec: the failure of a storage operation, which the spec names
  ``storage unavailable''.  An operation on an unusable storage throws and changes
  nothing.\<close>

definition localStorage_io :: "(world \<Rightarrow> 'a \<times> world) \<Rightarrow> 'a io" where
  "localStorage_io f w =
     (if ls_available w then (case f w of (x, w') \<Rightarrow> (Inr x, w')) else (Inl StorageError, w))"

text \<open>Modelled from the spec: \<^verbatim>\<open>getKeyPair\<close> of the missing module \<^verbatim>\<open>../storage\<close>, the
  spec's \<open>getActive() \<rightarrow> KeyPair | null\<close>.\<close>

definition getKeyPair :: "keypair option io" where
  "getKeyPair = localStorage_io (\<lambda>w. (ls_keyPair w, w))"

text \<open>Modelled from the spec: \<^verbatim>\<open>setKeyPair\<close> of the missing module \<^verbatim>\<open>../storage\<close>, the
  spec's \<open>setActive(KeyPair)\<close>, which persists the active key pair.\<close>

definition setKeyPair :: "keypair \<Rightarrow> unit io" where
  "setKeyPair k = localStorage_io (\<lambda>w. ((), w\<lparr>ls_keyPair := Some k\<rparr>))"

text \<open>Modelled from the spec: \<^verbatim>\<open>getKeyPairs\<close> of the missing module \<^verbatim>\<open>../storage\<close>, the
  spec's \<open>getAll() \<rightarrow> KeyPair[]\<close> with its stable enumeration order.\<close>

definition getKeyPairs :: "keypair list io" where
  "getKeyPairs = localStorage_io (\<lambda>w. (ls_keyPairs w, w))"

text \<open>Modelled from the spec: \<^verbatim>\<open>addKeyPair\<close> of the missing module \<^verbatim>\<open>../storage\<close>, the
  spec's \<open>add(KeyPair)\<close>.  The enumeration order is the order of insertion: the key pair
  is appended.\<close>

definition addKeyPair :: "keypair \<Rightarrow> unit io" where
  "addKeyPair k = localStorage_io (\<lambda>w. ((), w\<lparr>ls_keyPairs := ls_keyPairs w @ [k]\<rparr>))"

text \<open>Modelled from the spec: \<^verbatim>\<open>removeKeyPair\<close> of the missing module \<^verbatim>\<open>../storage\<close>,
  the spec's \<open>remove(KeyPair)\<close>, which removes the enumerated entry; key pairs are
  identified by their public key.  \<^verbatim>\<open>signOut\<close> passes what \<^verbatim>\<open>getKeyPair\<close> returned,
  which may be \<^verbatim>\<open>null\<close>: then nothing is removed.\<close>

definition removeKeyPair :: "keypair option \<Rightarrow> unit io" where
  "removeKeyPair ko = localStorage_io (\<lambda>w. ((),
     (case ko of
        None \<Rightarrow> w
      | Some k \<Rightarrow> w\<lparr>ls_keyPairs := filter (\<lambda>k'. publicKey k' \<noteq> publicKey k) (ls_keyPairs w)\<rparr>)))"

text \<open>The direct uses of \<^verbatim>\<open>localStorage\<close> in the component:
  \<^verbatim>\<open>localStorage.removeItem('keyPair')\<close>, \<^verbatim>\<open>localStorage.getItem('lastChecked')\<close> and
  \<^verbatim>\<open>localStorage.setItem('lastChecked', ...)\<close>.\<close>

definition localStorage_removeItem_keyPair :: "unit io" where
  "localStorage_removeItem_keyPair = localStorage_io (\<lambda>w. ((), w\<lparr>ls_keyPair := None\<rparr>))"

definition localStorage_getItem_lastChecked :: "date option io" where
  "localStorage_getItem_lastChecked = localStorage_io (\<lambda>w. (ls_lastChecked w, w))"

definition localStorage_setItem_lastChecked :: "date \<Rightarrow> unit io" where
  "localStorage_setItem_lastChecked d = localStorage_io (\<lambda>w. ((), w\<lparr>ls_lastChecked := Some d\<rparr>))"

subsection \<open>Resolving a profile\<close>

text \<open>
  \<^verbatim>\<open>fetchJSON\<close> is a parameter: for a URL it gives what the promise settles to, and a
  fulfilled response carries its \<^verbatim>\<open>result\<close> field, \<open>None\<close> when that is missing or
  \<^verbatim>\<open>null\<close>.  \<^verbatim>\<open>fetchUserForKey\<close> awaits it and returns \<^verbatim>\<open>user || null\<close>; a rejection
  passes through the \<^verbatim>\<open>await\<close>.
\<close>

type_synonym fetcher = "url \<Rightarrow> user_full option promise"

definition fetchUserForKey :: "fetcher \<Rightarrow> keypair \<Rightarrow> user_full option promise" where
  "fetchUserForKey fetchJSON kp =
     (case fetchJSON (SignerUserUrl (publicKey kp)) of
        Rejected \<Rightarrow> Rejected
      | Fulfilled result \<Rightarrow> Fulfilled (case result of Some u \<Rightarrow> Some u | None \<Rightarrow> None))"

text \<open>\<^verbatim>\<open>{ ...user, keyPair }\<close>\<close>

definition with_keyPair :: "user_full \<Rightarrow> keypair \<Rightarrow> user_with_key" where
  "with_keyPair u k = \<lparr>user_id = user_id u, profile = profile u, keyPair = k\<rparr>"

text \<open>\<^verbatim>\<open>Promise.all\<close>: rejected as soon as one member is, else the list of the values.\<close>

fun promise_all :: "'a promise list \<Rightarrow> 'a list promise" where
  "promise_all [] = Fulfilled []"
| "promise_all (Rejected # ps) = Rejected"
| "promise_all (Fulfilled x # ps) =
     (case promise_all ps of Rejected \<Rightarrow> Rejected | Fulfilled xs \<Rightarrow> Fulfilled (x # xs))"

subsection \<open>The effect on \<^verbatim>\<open>user\<close>\<close>

text \<open>
  \<^verbatim>\<open>useEffect(..., [user])\<close>: React runs it after a render in which \<^verbatim>\<open>user\<close> holds
  another object than before.
\<close>

definition user_effect :: "unit io" where
  "user_effect w =
     (case user w of
        None \<Rightarrow> return_io () w
      | Some u \<Rightarrow>
          bind_io getKeyPair (\<lambda>kp.
            if kp = None \<or> publicKey (the kp) \<noteq> publicKey (keyPair u)
            then setKeyPair (keyPair u)
            else return_io ()) w)"

text \<open>
  The setter \<^verbatim>\<open>setUser\<close> that the context exposes, given a session object other than
  the one held, followed by the render and the effect.  An exception inside an effect
  reaches no handler of the component; the state reached is kept.
\<close>

definition setUser_rendered :: "user_with_key \<Rightarrow> world \<Rightarrow> world" where
  "setUser_rendered u w = snd (bind_io (setUser (Some u)) (\<lambda>_. user_effect) w)"

subsection \<open>\<^verbatim>\<open>handleUserAuth\<close>\<close>

text \<open>
  The synchronous body, as written.  \<^verbatim>\<open>void manageUser(keyPair)\<close> runs \<^verbatim>\<open>manageUser\<close>
  up to its \<^verbatim>\<open>await\<close> and leaves the rest pending; \<^verbatim>\<open>Promise.all(...).then(...)\<close>
  leaves the callback pending, with the list \<^verbatim>\<open>keyPairs\<close> read before
  \<^verbatim>\<open>addKeyPair\<close>.
\<close>

definition handleUserAuth :: "keypair option \<Rightarrow> unit io" where
  "handleUserAuth forceKeyPair =
     bind_io (setLoading True) (\<lambda>_.
     bind_io (case forceKeyPair of Some k \<Rightarrow> setKeyPair k | None \<Rightarrow> return_io ()) (\<lambda>_.
     bind_io (case forceKeyPair of Some k \<Rightarrow> return_io (Some k) | None \<Rightarrow> getKeyPair) (\<lambda>keyPair0.
     bind_io getKeyPairs (\<lambda>keyPairs.
     let keyPair = (if keyPair0 = None \<and> length keyPairs > 0
                    then Some (keyPairs ! 0) else keyPair0) in
     bind_io (case keyPair of
                Some k \<Rightarrow> spawn (ManageUser k)
              | None \<Rightarrow> bind_io (setUser None) (\<lambda>_. setLoading False)) (\<lambda>_.
     bind_io (case keyPair of
                Some k \<Rightarrow>
                  if find (\<lambda>keyPair'. publicKey keyPair' = publicKey k) keyPairs = None
                  then addKeyPair k else return_io ()
              | None \<Rightarrow> return_io ()) (\<lambda>_.
     spawn (FetchUsers keyPairs)))))))"

text \<open>
  The continuations.  \<open>ManageUser\<close>: a rejected fetch ends \<^verbatim>\<open>manageUser\<close> at the
  \<^verbatim>\<open>await\<close>, and nothing handles the rejection (\<^verbatim>\<open>void\<close>); otherwise
  \<^verbatim>\<open>if (user) setUser({ ...user, keyPair }); setLoading(false)\<close>, and the effect on
  \<^verbatim>\<open>user\<close> after the render when a new object was set.  \<open>FetchUsers\<close>: the callback
  runs only when \<^verbatim>\<open>Promise.all\<close> is fulfilled; it pairs each user with
  \<^verbatim>\<open>keyPairs[index]\<close> and drops the \<^verbatim>\<open>null\<close>s.
\<close>

definition usersWithKeys :: "keypair list \<Rightarrow> user_full option list \<Rightarrow> user_with_key list" where
  "usersWithKeys keyPairs us =
     map the (filter (\<lambda>user. user \<noteq> None)
       (map (\<lambda>(index, user). case user of
                               Some u \<Rightarrow> Some (with_keyPair u (keyPairs ! index))
                             | None \<Rightarrow> None)
            (enumerate 0 us)))"

fun run_task :: "fetcher \<Rightarrow> task \<Rightarrow> world \<Rightarrow> world" where
  "run_task fetchJSON (ManageUser kp) w =
     (case fetchUserForKey fetchJSON kp of
        Rejected \<Rightarrow> w
      | Fulfilled None \<Rightarrow> snd (setLoading False w)
      | Fulfilled (Some u) \<Rightarrow>
          snd (bind_io (setUser (Some (with_keyPair u kp))) (\<lambda>_.
               bind_io (setLoading False) (\<lambda>_. user_effect)) w))"
| "run_task fetchJSON (FetchUsers keyPairs) w =
     (case promise_all (map (fetchUserForKey fetchJSON) keyPairs) of
        Rejected \<Rightarrow> w
      | Fulfilled us \<Rightarrow> snd (setUsers (usersWithKeys keyPairs us) w))"

fun run_tasks :: "fetcher \<Rightarrow> task list \<Rightarrow> world \<Rightarrow> world" where
  "run_tasks fetchJSON [] w = w"
| "run_tasks fetchJSON (t # ts) w = run_tasks fetchJSON ts (run_task fetchJSON t w)"

text \<open>All pending continuations have run, in the order they were left.\<close>

definition settle :: "fetcher \<Rightarrow> world \<Rightarrow> world" where
  "settle fetchJSON w = run_tasks fetchJSON (pending w) (w\<lparr>pending := []\<rparr>)"

text \<open>A call of \<^verbatim>\<open>handleUserAuth\<close> together with the completion of what it started.\<close>

definition handleUserAuth_completed :: "fetcher \<Rightarrow> keypair option \<Rightarrow> world \<Rightarrow> world" where
  "handleUserAuth_completed fetchJSON forceKeyPair w =
     settle fetchJSON (snd (handleUserAuth forceKeyPair w))"

subsection \<open>\<^verbatim>\<open>signOut\<close>\<close>

definition signOut_try :: "unit io" where
  "signOut_try =
     bind_io getKeyPair (\<lambda>keyPair.
     bind_io localStorage_removeItem_keyPair (\<lambda>_.
     bind_io (removeKeyPair keyPair) (\<lambda>_.
     handleUserAuth None)))"

definition signOut :: "unit io" where
  "signOut = catch_io signOut_try (\<lambda>error. setError (Some error))"

definition signOut_completed :: "fetcher \<Rightarrow> world \<Rightarrow> world" where
  "signOut_completed fetchJSON w = settle fetchJSON (snd (signOut w))"

subsection \<open>Notifications\<close>

text \<open>
  \<^verbatim>\<open>useEffect(..., [lastCheckedNotifications])\<close>, the start-up effect
  (\<^verbatim>\<open>useEffect(..., [])\<close>, with the two readings of the clock it makes) and
  \<^verbatim>\<open>resetNotifications\<close> (with its reading of the clock).  An entry
  \<^verbatim>\<open>'lastChecked'\<close> is only ever written by \<open>lastChecked_effect\<close>, as the ISO text of
  a date.
\<close>

definition lastChecked_effect :: "unit io" where
  "lastChecked_effect w =
     (case lastCheckedNotifications w of
        None \<Rightarrow> return_io () w
      | Some d \<Rightarrow> localStorage_setItem_lastChecked d w)"

definition startup_effect :: "date \<Rightarrow> date \<Rightarrow> unit io" where
  "startup_effect now1 now2 =
     bind_io (handleUserAuth None) (\<lambda>_.
     bind_io localStorage_getItem_lastChecked (\<lambda>item.
     bind_io (setLastCheckedNotifications
                (Some (case item of Some d \<Rightarrow> d | None \<Rightarrow> now1))) (\<lambda>_.
     setTimelineCursor (Some now2))))"

definition resetNotifications :: "date \<Rightarrow> unit io" where
  "resetNotifications now = setLastCheckedNotifications (Some now)"

text \<open>Each of the two, followed by the render and the effect on
  \<^verbatim>\<open>lastCheckedNotifications\<close>.\<close>

definition startup_rendered :: "date \<Rightarrow> date \<Rightarrow> world \<Rightarrow> world" where
  "startup_rendered now1 now2 w = snd (lastChecked_effect (snd (startup_effect now1 now2 w)))"

definition resetNotifications_rendered :: "date \<Rightarrow> world \<Rightarrow> world" where
  "resetNotifications_rendered now w =
     snd (bind_io (resetNotifications now) (\<lambda>_. lastChecked_effect) w)"

text \<open>
  The call of \<^verbatim>\<open>useSWR\<close>: its key, for the router's \<^verbatim>\<open>pathname\<close>, and its options.
  \<^verbatim>\<open>useSWR\<close> is a library; it fetches nothing for the key \<^verbatim>\<open>null\<close>.
\<close>

definition swr_key :: "string \<Rightarrow> world \<Rightarrow> url option" where
  "swr_key pathname w =
     (if pathname \<noteq> ''/notifications''
         \<and> (case user w of None \<Rightarrow> False | Some u \<Rightarrow> user_id u \<noteq> [])
         \<and> lastCheckedNotifications w \<noteq> None
      then Some (NotificationsUrl (user_id (the (user w))) (the (lastCheckedNotifications w)))
      else None)"

record swr_config =
  revalidateOnFocus :: bool
  revalidateOnReconnect :: bool
  refreshWhenHidden :: bool
  refreshInterval :: nat

definition swr_options :: swr_config where
  "swr_options =
     \<lparr>revalidateOnFocus = False, revalidateOnReconnect = False,
      refreshWhenHidden = True, refreshInterval = 10000\<rparr>"

text \<open>\<^verbatim>\<open>userNotifications?.badgeCount || null\<close>, for the \<^verbatim>\<open>data\<close> that \<^verbatim>\<open>useSWR\<close>
  returns (\<open>None\<close> for \<^verbatim>\<open>undefined\<close>).\<close>

definition value_userNotifications :: "summary option \<Rightarrow> int option" where
  "value_userNotifications userNotifications =
     (case userNotifications of
        None \<Rightarrow> None
      | Some s \<Rightarrow> if badgeCount s = 0 then None else Some (badgeCount s))"

subsection \<open>Notions used in the statements, and example data\<close>

text \<open>A key pair is enumerated by a list when the list has an entry with its public key
  (the comparison \<^verbatim>\<open>handleUserAuth\<close> makes before \<^verbatim>\<open>addKeyPair\<close>).\<close>

definition listed :: "keypair \<Rightarrow> keypair list \<Rightarrow> bool" where
  "listed k ks = (publicKey k \<in> publicKey ` set ks)"

text \<open>The session a key pair resolves to, if it does.\<close>

definition session_of :: "fetcher \<Rightarrow> keypair \<Rightarrow> user_with_key option" where
  "session_of fetchJSON k =
     (case fetchUserForKey fetchJSON k of
        Fulfilled (Some u) \<Rightarrow> Some (with_keyPair u k)
      | Fulfilled None \<Rightarrow> None
      | Rejected \<Rightarrow> None)"

text \<open>Two sessions compared by public key and user id.\<close>

definition same_session :: "user_with_key \<Rightarrow> user_with_key \<Rightarrow> bool" where
  "same_session a b = (publicKey (keyPair a) = publicKey (keyPair b) \<and> user_id a = user_id b)"

definition kpA :: keypair where
  "kpA = \<lparr>publicKey = ''A'', privateKey = ''a''\<rparr>"

definition kpB :: keypair where
  "kpB = \<lparr>publicKey = ''B'', privateKey = ''b''\<rparr>"

definition userA :: user_full where
  "userA = \<lparr>user_id = ''1'', profile = ''alice''\<rparr>"

definition userB :: user_full where
  "userB = \<lparr>user_id = ''2'', profile = ''bob''\<rparr>"

text \<open>A fetcher given by a table from public keys to outcomes; a key that is not in the
  table gets a response without result.\<close>

definition fetch_of :: "(string \<times> user_full option promise) list \<Rightarrow> fetcher" where
  "fetch_of tab url =
     (case url of
        SignerUserUrl pk \<Rightarrow> (case map_of tab pk of Some r \<Rightarrow> r | None \<Rightarrow> Fulfilled None)
      | NotificationsUrl i d \<Rightarrow> Rejected)"

text \<open>The key pair that \<^verbatim>\<open>handleUserAuth\<close> goes on with:
  \<^verbatim>\<open>forceKeyPair || getKeyPair()\<close>, and \<^verbatim>\<open>keyPairs[0]\<close> when that is \<^verbatim>\<open>null\<close> and
  the list is not empty.\<close>

definition candidate :: "keypair option \<Rightarrow> world \<Rightarrow> keypair option" where
  "candidate forceKeyPair w =
     (case forceKeyPair of
        Some k \<Rightarrow> Some k
      | None \<Rightarrow> (case ls_keyPair w of
                   Some k \<Rightarrow> Some k
                 | None \<Rightarrow> (case ls_keyPairs w of [] \<Rightarrow> None | k # ks \<Rightarrow> Some k)))"

section \<open>Properties\<close>

subsection \<open>The synchronous body of \<^verbatim>\<open>handleUserAuth\<close>, case by case\<close>

lemmas io_defs = return_io_def throw_io_def bind_io_def catch_io_def modify_io_def
  setUser_def setUsers_def setError_def setLoading_def setLastCheckedNotifications_def
  setTimelineCursor_def spawn_def localStorage_io_def getKeyPair_def setKeyPair_def
  getKeyPairs_def addKeyPair_def removeKeyPair_def localStorage_removeItem_keyPair_def
  localStorage_getItem_lastChecked_def localStorage_setItem_lastChecked_def

lemmas example_defs = kpA_def kpB_def userA_def userB_def fetch_of_def initial_def
  fetchUserForKey_def

lemma find_None_listed:
  "(find (\<lambda>k'. publicKey k' = publicKey k) ks = None) = (\<not> listed k ks)"
  by (induction ks) (simp_all add: listed_def)

lemma handleUserAuth_unavailable:
  "\<not> ls_available w \<Longrightarrow> handleUserAuth f w = (Inl StorageError, w\<lparr>loading := True\<rparr>)"
  by (cases f) (simp_all add: handleUserAuth_def io_defs)

lemma handleUserAuth_nothing:
  assumes "ls_available w" "ls_keyPair w = None" "ls_keyPairs w = []"
  shows "handleUserAuth None w =
     (Inr (), w\<lparr>loading := False, user := None, pending := pending w @ [FetchUsers []]\<rparr>)"
  using assms by (simp add: handleUserAuth_def io_defs)

lemma handleUserAuth_forced:
  assumes "ls_available w"
  shows "handleUserAuth (Some k) w =
     (Inr (), w\<lparr>loading := True, ls_keyPair := Some k,
        ls_keyPairs := (if listed k (ls_keyPairs w) then ls_keyPairs w else ls_keyPairs w @ [k]),
        pending := pending w @ [ManageUser k, FetchUsers (ls_keyPairs w)]\<rparr>)"
  using assms by (simp add: handleUserAuth_def io_defs find_None_listed)

lemma handleUserAuth_active:
  assumes "ls_available w" "ls_keyPair w = Some k"
  shows "handleUserAuth None w =
     (Inr (), w\<lparr>loading := True, ls_keyPair := Some k,
        ls_keyPairs := (if listed k (ls_keyPairs w) then ls_keyPairs w else ls_keyPairs w @ [k]),
        pending := pending w @ [ManageUser k, FetchUsers (ls_keyPairs w)]\<rparr>)"
  using assms by (cases w) (simp add: handleUserAuth_def io_defs find_None_listed)

lemma handleUserAuth_first:
  assumes "ls_available w" "ls_keyPair w = None" "ls_keyPairs w = k # ks"
  shows "handleUserAuth None w =
     (Inr (), w\<lparr>loading := True, ls_keyPair := None, ls_keyPairs := k # ks,
        pending := pending w @ [ManageUser k, FetchUsers (k # ks)]\<rparr>)"
  using assms by (cases w) (simp add: handleUserAuth_def io_defs)

subsection \<open>The continuations\<close>

lemma run_task_FetchUsers:
  "run_task f (FetchUsers ks) w =
     (case promise_all (map (fetchUserForKey f) ks) of
        Rejected \<Rightarrow> w
      | Fulfilled us \<Rightarrow> w\<lparr>users := usersWithKeys ks us\<rparr>)"
  by (simp add: io_defs split: promise.splits)

lemma run_task_ManageUser:
  "run_task f (ManageUser k) w =
     (case fetchUserForKey f k of
        Rejected \<Rightarrow> w
      | Fulfilled None \<Rightarrow> w\<lparr>loading := False\<rparr>
      | Fulfilled (Some u) \<Rightarrow>
          snd (user_effect (w\<lparr>user := Some (with_keyPair u k), loading := False\<rparr>)))"
  by (simp add: io_defs split: promise.splits option.splits)

declare run_task.simps [simp del]

lemma user_effect_available:
  assumes "ls_available w" "user w = Some u"
  shows "snd (user_effect w) =
     (if ls_keyPair w = None \<or> publicKey (the (ls_keyPair w)) \<noteq> publicKey (keyPair u)
      then w\<lparr>ls_keyPair := Some (keyPair u)\<rparr> else w)"
  using assms by (simp add: user_effect_def io_defs)

lemma user_effect_unavailable:
  "\<not> ls_available w \<Longrightarrow> snd (user_effect w) = w"
  by (simp add: user_effect_def io_defs split: option.splits)

lemma settle_pending:
  "settle f (w\<lparr>pending := ts\<rparr>) = run_tasks f ts (w\<lparr>pending := []\<rparr>)"
  by (simp add: settle_def)

lemma usersWithKeys_Nil: "usersWithKeys ks [] = []"
  by (simp add: usersWithKeys_def)

lemma user_effect_frame:
  "user (snd (user_effect w)) = user w"
  "users (snd (user_effect w)) = users w"
  "error (snd (user_effect w)) = error w"
  "loading (snd (user_effect w)) = loading w"
  "lastCheckedNotifications (snd (user_effect w)) = lastCheckedNotifications w"
  "ls_keyPairs (snd (user_effect w)) = ls_keyPairs w"
  "ls_available (snd (user_effect w)) = ls_available w"
  "pending (snd (user_effect w)) = pending w"
  by (simp_all add: user_effect_def io_defs split: option.splits)

lemma run_task_ManageUser_user:
  "user (run_task f (ManageUser k) w) =
     (case session_of f k of Some s \<Rightarrow> Some s | None \<Rightarrow> user w)"
  by (simp add: run_task_ManageUser session_of_def user_effect_frame
           split: promise.splits option.splits)

lemma run_task_ManageUser_frame:
  "users (run_task f (ManageUser k) w) = users w"
  "error (run_task f (ManageUser k) w) = error w"
  "ls_keyPairs (run_task f (ManageUser k) w) = ls_keyPairs w"
  "ls_available (run_task f (ManageUser k) w) = ls_available w"
  "pending (run_task f (ManageUser k) w) = pending w"
  by (simp_all add: run_task_ManageUser user_effect_frame split: promise.splits option.splits)

lemma run_task_ManageUser_loading:
  "loading (run_task f (ManageUser k) w) =
     (if fetchUserForKey f k = Rejected then loading w else False)"
  by (simp add: run_task_ManageUser user_effect_frame split: promise.splits option.splits)

lemma run_task_FetchUsers_frame:
  "user (run_task f (FetchUsers ks) w) = user w"
  "error (run_task f (FetchUsers ks) w) = error w"
  "loading (run_task f (FetchUsers ks) w) = loading w"
  "ls_keyPair (run_task f (FetchUsers ks) w) = ls_keyPair w"
  "ls_keyPairs (run_task f (FetchUsers ks) w) = ls_keyPairs w"
  "ls_available (run_task f (FetchUsers ks) w) = ls_available w"
  "pending (run_task f (FetchUsers ks) w) = pending w"
  by (simp_all add: run_task_FetchUsers split: promise.splits)

lemma promise_all_Fulfilled_length:
  "promise_all ps = Fulfilled xs \<Longrightarrow> length xs = length ps"
  by (induction ps arbitrary: xs rule: promise_all.induct) (auto split: promise.splits)

lemma promise_all_Rejected:
  "(promise_all ps = Rejected) = (Rejected \<in> set ps)"
  by (induction ps rule: promise_all.induct) (auto split: promise.splits)

lemma usersWithKeys_offset:
  "promise_all (map (fetchUserForKey f) ks) = Fulfilled us \<Longrightarrow>
   map the (filter (\<lambda>user. user \<noteq> None)
     (map (\<lambda>(index, user). case user of
                             Some u \<Rightarrow> Some (with_keyPair u ((pre @ ks) ! index))
                           | None \<Rightarrow> None)
          (enumerate (length pre) us)))
   = List.map_filter (session_of f) ks"
proof (induction ks arbitrary: us pre)
  case Nil
  then show ?case by simp
next
  case (Cons k ks)
  from Cons.prems obtain r where r: "fetchUserForKey f k = Fulfilled r"
    by (cases "fetchUserForKey f k") simp_all
  from Cons.prems r obtain rs where
    rs: "promise_all (map (fetchUserForKey f) ks) = Fulfilled rs"
    by (cases "promise_all (map (fetchUserForKey f) ks)") simp_all
  from Cons.prems r rs have us: "us = r # rs"
    by simp
  have ih: "map the (filter (\<lambda>user. user \<noteq> None)
     (map (\<lambda>(index, user). case user of
                             Some u \<Rightarrow> Some (with_keyPair u ((pre @ k # ks) ! index))
                           | None \<Rightarrow> None)
          (enumerate (Suc (length pre)) rs)))
   = List.map_filter (session_of f) ks"
    using Cons.IH [OF rs, of "pre @ [k]"] by (simp cong: option.case_cong)
  have k: "session_of f k = (case r of Some u \<Rightarrow> Some (with_keyPair u k) | None \<Rightarrow> None)"
    using r by (simp add: session_of_def split: option.splits)
  show ?case
    using ih by (cases r) (simp_all add: us k)
qed

lemma usersWithKeys_resolved:
  assumes "promise_all (map (fetchUserForKey f) ks) = Fulfilled us"
  shows "usersWithKeys ks us = List.map_filter (session_of f) ks"
  using usersWithKeys_offset [OF assms, of "[]"]
  by (simp add: usersWithKeys_def cong: option.case_cong)

lemma run_task_FetchUsers_users:
  "users (run_task f (FetchUsers ks) w) =
     (if Rejected \<in> fetchUserForKey f ` set ks then users w
      else List.map_filter (session_of f) ks)"
proof (cases "promise_all (map (fetchUserForKey f) ks)")
  case (Fulfilled us)
  then have "Rejected \<notin> fetchUserForKey f ` set ks"
    using promise_all_Rejected [of "map (fetchUserForKey f) ks"] by simp
  with Fulfilled show ?thesis
    by (simp add: run_task_FetchUsers usersWithKeys_resolved)
next
  case Rejected
  then have "Rejected \<in> fetchUserForKey f ` set ks"
    using promise_all_Rejected [of "map (fetchUserForKey f) ks"] by simp
  with Rejected show ?thesis
    by (simp add: run_task_FetchUsers)
qed

subsection \<open>A completed call\<close>

lemma handleUserAuth_completed_no_candidate:
  assumes "ls_available w" "pending w = []" "candidate force w = None"
  shows "handleUserAuth_completed f force w =
     w\<lparr>loading := False, user := None, users := [], pending := []\<rparr>"
proof -
  from assms(3) have "force = None" "ls_keyPair w = None" "ls_keyPairs w = []"
    by (simp_all add: candidate_def split: option.splits list.splits)
  then show ?thesis
    using assms(1,2)
    by (simp add: handleUserAuth_completed_def handleUserAuth_nothing settle_pending
          run_task_FetchUsers usersWithKeys_Nil)
qed

lemma handleUserAuth_completed_candidate:
  assumes "ls_available w" "pending w = []" "candidate force w = Some k"
  shows "handleUserAuth_completed f force w =
     run_task f (FetchUsers (ls_keyPairs w))
       (run_task f (ManageUser k)
          (w\<lparr>loading := True,
             ls_keyPair := (case force of Some k' \<Rightarrow> Some k' | None \<Rightarrow> ls_keyPair w),
             ls_keyPairs := (if listed k (ls_keyPairs w) then ls_keyPairs w
                             else ls_keyPairs w @ [k]),
             pending := []\<rparr>))"
proof (cases force)
  case (Some k')
  with assms(3) have "k' = k" by (simp add: candidate_def)
  with Some assms(1,2) show ?thesis
    by (simp add: handleUserAuth_completed_def handleUserAuth_forced settle_pending)
next
  case None
  show ?thesis
  proof (cases "ls_keyPair w")
    case (Some k')
    with None assms(3) have "k' = k" by (simp add: candidate_def)
    with Some None assms(1,2) show ?thesis
      by (simp add: handleUserAuth_completed_def handleUserAuth_active settle_pending)
  next
    case none: None
    with None assms(3) obtain ks where ks: "ls_keyPairs w = k # ks"
      by (cases "ls_keyPairs w") (simp_all add: candidate_def)
    then have "listed k (ls_keyPairs w)" by (simp add: listed_def)
    with ks none None assms(1,2) show ?thesis
      by (simp add: handleUserAuth_completed_def handleUserAuth_first [OF assms(1) none ks]
            settle_pending)
  qed
qed

lemma handleUserAuth_completed_user:
  assumes "ls_available w" "pending w = []"
  shows "user (handleUserAuth_completed f force w) =
     (case candidate force w of
        None \<Rightarrow> None
      | Some k \<Rightarrow> (case session_of f k of Some s \<Rightarrow> Some s | None \<Rightarrow> user w))"
  using assms
  by (cases "candidate force w")
     (simp_all add: handleUserAuth_completed_no_candidate handleUserAuth_completed_candidate
        run_task_FetchUsers_frame run_task_ManageUser_user split: option.splits)

lemma handleUserAuth_completed_users:
  assumes "ls_available w" "pending w = []"
  shows "users (handleUserAuth_completed f force w) =
     (if Rejected \<in> fetchUserForKey f ` set (ls_keyPairs w) then users w
      else List.map_filter (session_of f) (ls_keyPairs w))"
  using assms
  by (cases "candidate force w")
     (simp_all add: handleUserAuth_completed_no_candidate handleUserAuth_completed_candidate
        run_task_FetchUsers_users run_task_ManageUser_frame candidate_def
        split: option.splits list.splits)

lemma handleUserAuth_completed_loading:
  assumes "ls_available w" "pending w = []"
  shows "loading (handleUserAuth_completed f force w) =
     (case candidate force w of
        None \<Rightarrow> False
      | Some k \<Rightarrow> fetchUserForKey f k = Rejected)"
  using assms
  by (cases "candidate force w")
     (simp_all add: handleUserAuth_completed_no_candidate handleUserAuth_completed_candidate
        run_task_FetchUsers_frame run_task_ManageUser_loading)

lemma handleUserAuth_completed_error:
  assumes "ls_available w" "pending w = []"
  shows "error (handleUserAuth_completed f force w) = error w"
  using assms
  by (cases "candidate force w")
     (simp_all add: handleUserAuth_completed_no_candidate handleUserAuth_completed_candidate
        run_task_FetchUsers_frame run_task_ManageUser_frame)

lemma handleUserAuth_completed_keyPairs:
  assumes "ls_available w" "pending w = []"
  shows "ls_keyPairs (handleUserAuth_completed f force w) =
     (case candidate force w of
        None \<Rightarrow> ls_keyPairs w
      | Some k \<Rightarrow> if listed k (ls_keyPairs w) then ls_keyPairs w else ls_keyPairs w @ [k])"
  using assms
  by (cases "candidate force w")
     (simp_all add: handleUserAuth_completed_no_candidate handleUserAuth_completed_candidate
        run_task_FetchUsers_frame run_task_ManageUser_frame)

lemma run_task_ManageUser_keyPair:
  assumes "ls_available w"
  shows "ls_keyPair (run_task f (ManageUser k) w) =
     (case session_of f k of
        None \<Rightarrow> ls_keyPair w
      | Some s \<Rightarrow> if ls_keyPair w = None \<or> publicKey (the (ls_keyPair w)) \<noteq> publicKey k
                  then Some k else ls_keyPair w)"
  using assms
  by (simp add: run_task_ManageUser session_of_def user_effect_available with_keyPair_def
        split: promise.splits option.splits)

lemma handleUserAuth_completed_keyPair:
  assumes "ls_available w" "pending w = []"
  shows "ls_keyPair (handleUserAuth_completed f force w) =
     (case candidate force w of
        None \<Rightarrow> ls_keyPair w
      | Some k \<Rightarrow>
          (case session_of f k of
             None \<Rightarrow> (case force of Some k' \<Rightarrow> Some k' | None \<Rightarrow> ls_keyPair w)
           | Some s \<Rightarrow>
               (case force of
                  Some k' \<Rightarrow> Some k'
                | None \<Rightarrow> if ls_keyPair w = None
                               \<or> publicKey (the (ls_keyPair w)) \<noteq> publicKey k
                          then Some k else ls_keyPair w)))"
proof (cases "candidate force w")
  case None
  with assms show ?thesis
    by (simp add: handleUserAuth_completed_no_candidate)
next
  case (Some k)
  show ?thesis
  proof (cases force)
    case None
    with Some assms show ?thesis
      by (simp add: handleUserAuth_completed_candidate run_task_FetchUsers_frame
            run_task_ManageUser_keyPair split: option.splits)
  next
    case force: (Some k')
    with Some have "k' = k" by (simp add: candidate_def)
    with force Some assms show ?thesis
      by (simp add: handleUserAuth_completed_candidate run_task_FetchUsers_frame
            run_task_ManageUser_keyPair split: option.splits)
  qed
qed

lemma handleUserAuth_returns:
  assumes "ls_available w"
  shows "fst (handleUserAuth force w) = Inr ()"
proof (cases force)
  case (Some k)
  then show ?thesis by (simp add: handleUserAuth_forced [OF assms])
next
  case None
  show ?thesis
  proof (cases "ls_keyPair w")
    case (Some k)
    then show ?thesis by (simp add: None handleUserAuth_active [OF assms])
  next
    case none: None
    then show ?thesis
      by (cases "ls_keyPairs w")
         (simp_all add: None handleUserAuth_nothing [OF assms] handleUserAuth_first [OF assms])
  qed
qed

subsection \<open>\<^verbatim>\<open>signOut\<close>\<close>

lemma signOut_unavailable:
  "\<not> ls_available w \<Longrightarrow> signOut w = (Inr (), w\<lparr>error := Some StorageError\<rparr>)"
  by (simp add: signOut_def signOut_try_def io_defs)

lemma signOut_available:
  assumes "ls_available w"
  shows "signOut w = handleUserAuth None
     (w\<lparr>ls_keyPair := None,
        ls_keyPairs := (case ls_keyPair w of
                          None \<Rightarrow> ls_keyPairs w
                        | Some k \<Rightarrow> filter (\<lambda>k'. publicKey k' \<noteq> publicKey k) (ls_keyPairs w))\<rparr>)"
proof -
  let ?w1 = "w\<lparr>ls_keyPair := None,
        ls_keyPairs := (case ls_keyPair w of
                          None \<Rightarrow> ls_keyPairs w
                        | Some k \<Rightarrow> filter (\<lambda>k'. publicKey k' \<noteq> publicKey k) (ls_keyPairs w))\<rparr>"
  have t: "signOut_try w = handleUserAuth None ?w1"
    using assms by (cases w) (simp add: signOut_try_def io_defs split: option.splits)
  have "fst (handleUserAuth None ?w1) = Inr ()"
    using assms by (intro handleUserAuth_returns) simp
  then show ?thesis
    by (cases "handleUserAuth None ?w1") (simp add: signOut_def catch_io_def t)
qed

lemma signOut_returns: "fst (signOut w) = Inr ()"
proof (cases "ls_available w")
  case True
  then show ?thesis
    by (simp add: signOut_available handleUserAuth_returns)
next
  case False
  then show ?thesis by (simp add: signOut_unavailable)
qed

lemma signOut_completed_available:
  assumes "ls_available w"
  shows "signOut_completed f w = handleUserAuth_completed f None
     (w\<lparr>ls_keyPair := None,
        ls_keyPairs := (case ls_keyPair w of
                          None \<Rightarrow> ls_keyPairs w
                        | Some k \<Rightarrow> filter (\<lambda>k'. publicKey k' \<noteq> publicKey k) (ls_keyPairs w))\<rparr>)"
  by (simp add: signOut_completed_def handleUserAuth_completed_def signOut_available [OF assms])

text \<open>The two continuations of one call write different parts of the state: the order in
  which they run makes no difference.\<close>

lemma continuations_commute:
  "run_task f (FetchUsers ks) (run_task f (ManageUser k) w)
   = run_task f (ManageUser k) (run_task f (FetchUsers ks) w)"
  by (simp add: run_task_FetchUsers run_task_ManageUser user_effect_def io_defs
        split: promise.splits option.splits)

subsection \<open>Claims\<close>

text \<open>
  C7.  Let the storage be usable, no earlier call be still in flight, no active key pair be
  persisted and the list of key pairs be empty.  Then a completed call of
  \<^verbatim>\<open>handleUserAuth()\<close> without forced key pair ends with \<open>user\<close> (the active session)
  \<^verbatim>\<open>null\<close>, \<open>users\<close> (the known sessions) empty and \<open>loading\<close> false.
\<close>

theorem empty_store_signed_out:
  assumes "ls_available w" and "pending w = []"
    and "ls_keyPair w = None" and "ls_keyPairs w = []"
  shows "user (handleUserAuth_completed fetchJSON None w) = None
       \<and> users (handleUserAuth_completed fetchJSON None w) = []
       \<and> loading (handleUserAuth_completed fetchJSON None w) = False"
proof -
  have "candidate None w = None"
    using assms(3,4) by (simp add: candidate_def)
  then show ?thesis
    using assms(1,2) by (simp add: handleUserAuth_completed_no_candidate)
qed

theorem empty_store_signed_out_witness:
  "ls_available (initial None [] None True) \<and> pending (initial None [] None True) = []
   \<and> ls_keyPair (initial None [] None True) = None
   \<and> ls_keyPairs (initial None [] None True) = []
   \<and> user (handleUserAuth_completed (fetch_of []) None (initial None [] None True)) = None
   \<and> users (handleUserAuth_completed (fetch_of []) None (initial None [] None True)) = []
   \<and> loading (handleUserAuth_completed (fetch_of []) None (initial None [] None True)) = False"
  using empty_store_signed_out [of "initial None [] None True" "fetch_of []"]
  by (simp add: initial_def)

text \<open>
  C2.  Let the storage be usable, no earlier call be in flight, no active key pair be
  persisted, and the list of key pairs be \<open>a # rest\<close> with \<open>a\<close> resolving to the profile
  \<open>u\<close>.  Then a completed \<^verbatim>\<open>handleUserAuth()\<close> leaves the session of \<open>u\<close> with key pair
  \<open>a\<close> as the active one; and when the list is \<open>[a, b]\<close> and \<open>b\<close> resolves to \<open>v\<close>, the
  known sessions are those of \<open>a\<close> and \<open>b\<close>, in this order.
\<close>

theorem fallback_to_first:
  assumes "ls_available w" and "pending w = []"
    and "ls_keyPair w = None" and "ls_keyPairs w = a # rest"
    and "fetchUserForKey fetchJSON a = Fulfilled (Some u)"
  shows "user (handleUserAuth_completed fetchJSON None w) = Some (with_keyPair u a)
       \<and> keyPair (the (user (handleUserAuth_completed fetchJSON None w))) = a
       \<and> (\<forall>b v. rest = [b] \<and> fetchUserForKey fetchJSON b = Fulfilled (Some v) \<longrightarrow>
             users (handleUserAuth_completed fetchJSON None w)
               = [with_keyPair u a, with_keyPair v b])"
proof -
  have c: "candidate None w = Some a"
    using assms(3,4) by (simp add: candidate_def)
  have s: "session_of fetchJSON a = Some (with_keyPair u a)"
    using assms(5) by (simp add: session_of_def)
  have 1: "user (handleUserAuth_completed fetchJSON None w) = Some (with_keyPair u a)"
    using assms(1,2) c s by (simp add: handleUserAuth_completed_user)
  have 2: "keyPair (with_keyPair u a) = a"
    by (simp add: with_keyPair_def)
  have 3: "users (handleUserAuth_completed fetchJSON None w)
             = [with_keyPair u a, with_keyPair v b]"
    if "rest = [b]" and "fetchUserForKey fetchJSON b = Fulfilled (Some v)" for b v
    using assms(1,2,4,5) that
    by (simp add: handleUserAuth_completed_users s session_of_def)
  from 1 2 3 show ?thesis by simp
qed

theorem fallback_to_first_witness:
  "ls_available (initial None [kpA, kpB] None True)
   \<and> pending (initial None [kpA, kpB] None True) = []
   \<and> ls_keyPair (initial None [kpA, kpB] None True) = None
   \<and> ls_keyPairs (initial None [kpA, kpB] None True) = kpA # [kpB]
   \<and> fetchUserForKey (fetch_of [(''A'', Fulfilled (Some userA)), (''B'', Fulfilled (Some userB))]) kpA
       = Fulfilled (Some userA)
   \<and> fetchUserForKey (fetch_of [(''A'', Fulfilled (Some userA)), (''B'', Fulfilled (Some userB))]) kpB
       = Fulfilled (Some userB)
   \<and> user (handleUserAuth_completed
             (fetch_of [(''A'', Fulfilled (Some userA)), (''B'', Fulfilled (Some userB))])
             None (initial None [kpA, kpB] None True))
       = Some (with_keyPair userA kpA)
   \<and> users (handleUserAuth_completed
             (fetch_of [(''A'', Fulfilled (Some userA)), (''B'', Fulfilled (Some userB))])
             None (initial None [kpA, kpB] None True))
       = [with_keyPair userA kpA, with_keyPair userB kpB]"
  using fallback_to_first [of "initial None [kpA, kpB] None True" kpA "[kpB]"
      "fetch_of [(''A'', Fulfilled (Some userA)), (''B'', Fulfilled (Some userB))]" userA]
  by (simp add: example_defs)

text \<open>
  C10.  The value \<^verbatim>\<open>userNotifications\<close> that the context exposes is \<^verbatim>\<open>null\<close> exactly
  when no summary has been fetched or the fetched summary has \<^verbatim>\<open>badgeCount\<close> 0, and it
  is never the number 0.
\<close>

theorem zero_badge_is_null:
  "(value_userNotifications d = None) = (d = None \<or> badgeCount (the d) = 0)
   \<and> value_userNotifications d \<noteq> Some 0"
  by (cases d) (simp_all add: value_userNotifications_def)

theorem zero_badge_is_null_witness:
  "value_userNotifications (Some \<lparr>badgeCount = 0\<rparr>) = None
   \<and> value_userNotifications None = None
   \<and> value_userNotifications (Some \<lparr>badgeCount = 3\<rparr>) = Some 3"
  using zero_badge_is_null [of "Some \<lparr>badgeCount = 0\<rparr>"] zero_badge_is_null [of None]
    zero_badge_is_null [of "Some \<lparr>badgeCount = 3\<rparr>"]
  by (simp add: value_userNotifications_def)

text \<open>
  C9.  \<^verbatim>\<open>resetNotifications()\<close> sets \<open>lastCheckedNotifications\<close> to the time it reads
  from the clock.  With a usable storage, the effect on \<open>lastCheckedNotifications\<close> writes
  a value that is not \<^verbatim>\<open>null\<close> to the entry \<^verbatim>\<open>'lastChecked'\<close>, so that after
  \<^verbatim>\<open>resetNotifications()\<close> and after the start-up effect the entry holds the new value;
  and the start-up effect sets \<open>lastCheckedNotifications\<close> to the persisted value, or to
  the time it reads from the clock when nothing is persisted.
\<close>

theorem lastChecked_persisted:
  "lastCheckedNotifications (snd (resetNotifications now w)) = Some now
   \<and> (ls_available w \<longrightarrow>
        lastCheckedNotifications (resetNotifications_rendered now w) = Some now
        \<and> ls_lastChecked (resetNotifications_rendered now w) = Some now)
   \<and> (ls_available w \<longrightarrow>
        (\<forall>d. lastCheckedNotifications w = Some d \<longrightarrow>
             ls_lastChecked (snd (lastChecked_effect w)) = Some d))
   \<and> (ls_available w \<longrightarrow>
        lastCheckedNotifications (startup_rendered now1 now2 w)
          = Some (case ls_lastChecked w of Some d \<Rightarrow> d | None \<Rightarrow> now1)
        \<and> ls_lastChecked (startup_rendered now1 now2 w)
          = Some (case ls_lastChecked w of Some d \<Rightarrow> d | None \<Rightarrow> now1))"
proof -
  have 1: "lastCheckedNotifications (snd (resetNotifications now w)) = Some now"
    by (simp add: resetNotifications_def io_defs)
  have 2: "lastCheckedNotifications (resetNotifications_rendered now w) = Some now
        \<and> ls_lastChecked (resetNotifications_rendered now w) = Some now"
    if "ls_available w"
    using that
    by (simp add: resetNotifications_rendered_def resetNotifications_def
          lastChecked_effect_def io_defs)
  have 3: "ls_lastChecked (snd (lastChecked_effect w)) = Some d"
    if "ls_available w" "lastCheckedNotifications w = Some d" for d
    using that by (simp add: lastChecked_effect_def io_defs)
  have 4: "lastCheckedNotifications (startup_rendered now1 now2 w)
          = Some (case ls_lastChecked w of Some d \<Rightarrow> d | None \<Rightarrow> now1)
        \<and> ls_lastChecked (startup_rendered now1 now2 w)
          = Some (case ls_lastChecked w of Some d \<Rightarrow> d | None \<Rightarrow> now1)"
    if av: "ls_available w"
  proof -
    obtain w' where h: "handleUserAuth None w = (Inr (), w')"
      and a: "ls_available w'" and l: "ls_lastChecked w' = ls_lastChecked w"
    proof (cases "ls_keyPair w")
      case (Some k)
      show ?thesis
        by (rule that [OF handleUserAuth_active [OF av Some]]) (simp_all add: av)
    next
      case None
      show ?thesis
      proof (cases "ls_keyPairs w")
        case Nil
        show ?thesis
          by (rule that [OF handleUserAuth_nothing [OF av None Nil]]) (simp_all add: av)
      next
        case (Cons k ks)
        show ?thesis
          by (rule that [OF handleUserAuth_first [OF av None Cons]]) (simp_all add: av)
      qed
    qed
    then show ?thesis
      by (simp add: startup_rendered_def startup_effect_def lastChecked_effect_def io_defs)
  qed
  from 1 2 3 4 show ?thesis by blast
qed

theorem lastChecked_persisted_witness:
  "ls_available (initial None [] (Some 7) True)
   \<and> lastCheckedNotifications (resetNotifications_rendered 42 (initial None [] (Some 7) True)) = Some 42
   \<and> ls_lastChecked (resetNotifications_rendered 42 (initial None [] (Some 7) True)) = Some 42
   \<and> lastCheckedNotifications (startup_rendered 42 43 (initial None [] (Some 7) True)) = Some 7
   \<and> ls_lastChecked (startup_rendered 42 43 (initial None [] (Some 7) True)) = Some 7
   \<and> lastCheckedNotifications (startup_rendered 42 43 (initial None [] None True)) = Some 42
   \<and> ls_lastChecked (startup_rendered 42 43 (initial None [] None True)) = Some 42"
  using lastChecked_persisted [of 42 "initial None [] (Some 7) True" 42 43]
    lastChecked_persisted [of 42 "initial None [] None True" 42 43]
  by (simp add: initial_def)

text \<open>
  C4.  Let the storage be usable and let no active key pair be persisted, or one whose public
  key is not that of the session's key pair.  When the exposed setter puts a session into
  \<open>user\<close>, and when the continuation of \<^verbatim>\<open>manageUser\<close> does for a key pair that
  resolves, the effect on \<open>user\<close> persists the session's key pair as the active one.
\<close>

theorem active_key_pair_reconciled:
  assumes "ls_available w"
  shows "(ls_keyPair w = None \<or> publicKey (the (ls_keyPair w)) \<noteq> publicKey (keyPair s) \<longrightarrow>
            user (setUser_rendered s w) = Some s
            \<and> ls_keyPair (setUser_rendered s w) = Some (keyPair s))
       \<and> (\<forall>k u. fetchUserForKey fetchJSON k = Fulfilled (Some u)
                 \<and> (ls_keyPair w = None \<or> publicKey (the (ls_keyPair w)) \<noteq> publicKey k) \<longrightarrow>
            user (run_task fetchJSON (ManageUser k) w) = Some (with_keyPair u k)
            \<and> ls_keyPair (run_task fetchJSON (ManageUser k) w) = Some k)"
proof -
  have 1: "user (setUser_rendered s w) = Some s
           \<and> ls_keyPair (setUser_rendered s w) = Some (keyPair s)"
    if "ls_keyPair w = None \<or> publicKey (the (ls_keyPair w)) \<noteq> publicKey (keyPair s)"
    using that assms
    by (auto simp add: setUser_rendered_def user_effect_def io_defs)
  have 2: "user (run_task fetchJSON (ManageUser k) w) = Some (with_keyPair u k)
           \<and> ls_keyPair (run_task fetchJSON (ManageUser k) w) = Some k"
    if "fetchUserForKey fetchJSON k = Fulfilled (Some u)"
      and "ls_keyPair w = None \<or> publicKey (the (ls_keyPair w)) \<noteq> publicKey k" for k u
    using that assms
    by (auto simp add: run_task_ManageUser user_effect_def io_defs with_keyPair_def)
  from 1 2 show ?thesis by blast
qed

theorem active_key_pair_reconciled_witness:
  "ls_available (initial (Some kpA) [kpA, kpB] None True)
   \<and> publicKey (the (ls_keyPair (initial (Some kpA) [kpA, kpB] None True)))
        \<noteq> publicKey (keyPair (with_keyPair userB kpB))
   \<and> ls_keyPair (setUser_rendered (with_keyPair userB kpB)
        (initial (Some kpA) [kpA, kpB] None True)) = Some kpB
   \<and> fetchUserForKey (fetch_of [(''B'', Fulfilled (Some userB))]) kpB = Fulfilled (Some userB)
   \<and> ls_keyPair (run_task (fetch_of [(''B'', Fulfilled (Some userB))]) (ManageUser kpB)
        (initial (Some kpA) [kpA, kpB] None True)) = Some kpB"
  using active_key_pair_reconciled [of "initial (Some kpA) [kpA, kpB] None True"
      "with_keyPair userB kpB" "fetch_of [(''B'', Fulfilled (Some userB))]"]
  by (simp add: example_defs with_keyPair_def)

text \<open>
  C5, as the code has it.  \<^verbatim>\<open>signOut()\<close> never throws, and with an unusable storage the
  failure is put into \<open>error\<close>.  Let the storage be usable, no earlier call be in flight
  and \<open>K\<close> be the persisted active key pair.  After \<^verbatim>\<open>signOut()\<close> has completed, no
  enumerated key pair and no persisted active key pair has the public key of \<open>K\<close>, and
  \<open>error\<close> is as before.  The active session is \<^verbatim>\<open>null\<close> when no other key pair
  remains; it is the session of the first remaining key pair, whose public key is not that
  of \<open>K\<close>, when that key pair resolves; and it is left as it was when the first remaining
  key pair does not resolve.
\<close>

theorem signOut_outcome:
  "fst (signOut w) = Inr ()
   \<and> (\<not> ls_available w \<longrightarrow> error (snd (signOut w)) = Some StorageError)
   \<and> (ls_available w \<and> pending w = [] \<and> ls_keyPair w = Some K \<longrightarrow>
        \<not> listed K (ls_keyPairs (signOut_completed fetchJSON w))
        \<and> (\<forall>k. ls_keyPair (signOut_completed fetchJSON w) = Some k \<longrightarrow>
                 publicKey k \<noteq> publicKey K)
        \<and> error (signOut_completed fetchJSON w) = error w
        \<and> user (signOut_completed fetchJSON w) =
            (case filter (\<lambda>k'. publicKey k' \<noteq> publicKey K) (ls_keyPairs w) of
               [] \<Rightarrow> None
             | a # remaining \<Rightarrow>
                 (case session_of fetchJSON a of
                    Some s \<Rightarrow> Some s
                  | None \<Rightarrow> user w))
        \<and> (\<forall>a remaining s.
              filter (\<lambda>k'. publicKey k' \<noteq> publicKey K) (ls_keyPairs w) = a # remaining
              \<and> session_of fetchJSON a = Some s \<longrightarrow>
              keyPair s = a \<and> publicKey (keyPair s) \<noteq> publicKey K))"
proof -
  have 1: "\<not> ls_available w \<longrightarrow> error (snd (signOut w)) = Some StorageError"
    by (simp add: signOut_unavailable)
  have 2: "\<not> listed K (ls_keyPairs (signOut_completed fetchJSON w))
        \<and> (\<forall>k. ls_keyPair (signOut_completed fetchJSON w) = Some k \<longrightarrow>
                 publicKey k \<noteq> publicKey K)
        \<and> error (signOut_completed fetchJSON w) = error w
        \<and> user (signOut_completed fetchJSON w) =
            (case filter (\<lambda>k'. publicKey k' \<noteq> publicKey K) (ls_keyPairs w) of
               [] \<Rightarrow> None
             | a # remaining \<Rightarrow>
                 (case session_of fetchJSON a of
                    Some s \<Rightarrow> Some s
                  | None \<Rightarrow> user w))"
    if av: "ls_available w" and p: "pending w = []" and K: "ls_keyPair w = Some K"
  proof -
    let ?rem = "filter (\<lambda>k'. publicKey k' \<noteq> publicKey K) (ls_keyPairs w)"
    let ?w1 = "w\<lparr>ls_keyPair := None, ls_keyPairs := ?rem\<rparr>"
    have c: "signOut_completed fetchJSON w = handleUserAuth_completed fetchJSON None ?w1"
      using signOut_completed_available [OF av, of fetchJSON] K by simp
    have av1: "ls_available ?w1" and p1: "pending ?w1 = []"
      using av p by simp_all
    have notin: "\<not> listed K ?rem"
      by (auto simp add: listed_def)
    show ?thesis
    proof (cases ?rem)
      case Nil
      then have cn: "candidate None ?w1 = None"
        by (simp add: candidate_def)
      have k: "ls_keyPairs (signOut_completed fetchJSON w) = ?rem"
        using cn by (simp add: c handleUserAuth_completed_keyPairs [OF av1 p1])
      have e: "error (signOut_completed fetchJSON w) = error w"
        by (simp add: c handleUserAuth_completed_error [OF av1 p1])
      have u: "user (signOut_completed fetchJSON w) = None"
        using cn by (simp add: c handleUserAuth_completed_user [OF av1 p1])
      have kp: "ls_keyPair (signOut_completed fetchJSON w) = None"
        using cn by (simp add: c handleUserAuth_completed_keyPair [OF av1 p1])
      from k e u kp notin Nil show ?thesis
        by simp
    next
      case (Cons a remaining)
      then have ca: "candidate None ?w1 = Some a"
        by (simp add: candidate_def)
      have "a \<in> set ?rem"
        using Cons by simp
      then have a: "publicKey a \<noteq> publicKey K"
        by simp
      have la: "listed a ?rem"
        using Cons by (simp add: listed_def)
      have k: "ls_keyPairs (signOut_completed fetchJSON w) = ?rem"
        using ca la by (simp add: c handleUserAuth_completed_keyPairs [OF av1 p1])
      have e: "error (signOut_completed fetchJSON w) = error w"
        by (simp add: c handleUserAuth_completed_error [OF av1 p1])
      have u: "user (signOut_completed fetchJSON w) =
                 (case session_of fetchJSON a of Some s \<Rightarrow> Some s | None \<Rightarrow> user w)"
        using ca by (simp add: c handleUserAuth_completed_user [OF av1 p1] split: option.splits)
      have kp: "\<forall>k. ls_keyPair (signOut_completed fetchJSON w) = Some k \<longrightarrow>
                 publicKey k \<noteq> publicKey K"
        using ca a
        by (simp add: c handleUserAuth_completed_keyPair [OF av1 p1] split: option.splits)
      from k e u kp notin Cons show ?thesis
        by simp
    qed
  qed
  have 3: "keyPair s = a \<and> publicKey (keyPair s) \<noteq> publicKey K"
    if "filter (\<lambda>k'. publicKey k' \<noteq> publicKey K) (ls_keyPairs w) = a # remaining"
      and s: "session_of fetchJSON a = Some s" for a remaining s
  proof -
    have "a \<in> set (filter (\<lambda>k'. publicKey k' \<noteq> publicKey K) (ls_keyPairs w))"
      using that(1) by simp
    then have "publicKey a \<noteq> publicKey K"
      by simp
    moreover have "keyPair s = a"
      using s by (auto simp add: session_of_def with_keyPair_def split: promise.splits option.splits)
    ultimately show ?thesis by simp
  qed
  from signOut_returns [of w] 1 2 3 show ?thesis
    by blast
qed

theorem signOut_outcome_witness:
  "ls_available ((initial (Some kpA) [kpA, kpB] None True)\<lparr>user := Some (with_keyPair userA kpA)\<rparr>)
   \<and> pending ((initial (Some kpA) [kpA, kpB] None True)\<lparr>user := Some (with_keyPair userA kpA)\<rparr>) = []
   \<and> ls_keyPair ((initial (Some kpA) [kpA, kpB] None True)\<lparr>user := Some (with_keyPair userA kpA)\<rparr>)
        = Some kpA
   \<and> \<not> listed kpA (ls_keyPairs (signOut_completed (fetch_of [(''B'', Fulfilled (Some userB))])
        ((initial (Some kpA) [kpA, kpB] None True)\<lparr>user := Some (with_keyPair userA kpA)\<rparr>)))
   \<and> user (signOut_completed (fetch_of [(''B'', Fulfilled (Some userB))])
        ((initial (Some kpA) [kpA, kpB] None True)\<lparr>user := Some (with_keyPair userA kpA)\<rparr>))
        = Some (with_keyPair userB kpB)
   \<and> \<not> ls_available (initial (Some kpA) [kpA, kpB] None False)
   \<and> fst (signOut (initial (Some kpA) [kpA, kpB] None False)) = Inr ()
   \<and> error (snd (signOut (initial (Some kpA) [kpA, kpB] None False))) = Some StorageError"
  using signOut_outcome [of
      "(initial (Some kpA) [kpA, kpB] None True)\<lparr>user := Some (with_keyPair userA kpA)\<rparr>"
      kpA "fetch_of [(''B'', Fulfilled (Some userB))]"]
    signOut_outcome [of "initial (Some kpA) [kpA, kpB] None False"]
  by (simp add: example_defs session_of_def)

text \<open>
  The claim C5 as written fails: \<open>kpA\<close> is active with its session, \<open>kpB\<close> remains after
  the sign-out, but the profile of \<open>kpB\<close> does not resolve; then \<^verbatim>\<open>manageUser\<close> sets
  nothing and the active session is still the one of the key pair signed out.
\<close>

theorem signOut_keeps_session_counterexample:
  "ls_keyPair ((initial (Some kpA) [kpA, kpB] None True)\<lparr>user := Some (with_keyPair userA kpA)\<rparr>)
     = Some kpA
   \<and> ls_keyPairs (signOut_completed (fetch_of [(''A'', Fulfilled (Some userA))])
        ((initial (Some kpA) [kpA, kpB] None True)\<lparr>user := Some (with_keyPair userA kpA)\<rparr>))
     = [kpB]
   \<and> user (signOut_completed (fetch_of [(''A'', Fulfilled (Some userA))])
        ((initial (Some kpA) [kpA, kpB] None True)\<lparr>user := Some (with_keyPair userA kpA)\<rparr>))
     = Some (with_keyPair userA kpA)"
  by (simp add: signOut_completed_available handleUserAuth_completed_user
        handleUserAuth_completed_keyPairs candidate_def listed_def session_of_def example_defs)

text \<open>
  The notification poller.  The component hands \<^verbatim>\<open>useSWR\<close> a key and an options
  object and leaves to that library when requests are made; the embedding has the key and
  the options, and neither a clock nor the requests.  What the source fixes of C8 is the
  key: it is \<^verbatim>\<open>null\<close> exactly when the current screen is \<^verbatim>\<open>/notifications\<close>, or
  \<^verbatim>\<open>user?.id\<close> is falsy (there is no active session, or its user id is empty), or
  \<open>lastCheckedNotifications\<close> is \<^verbatim>\<open>null\<close>; otherwise it is the notifications URL of
  the active user with the last-checked time.
\<close>

lemma swr_key_None:
  "(swr_key pathname w = None) =
     (pathname = ''/notifications'' \<or> user w = None \<or> user_id (the (user w)) = []
      \<or> lastCheckedNotifications w = None)"
  by (cases "user w") (auto simp add: swr_key_def)

lemma swr_key_Some:
  assumes "swr_key pathname w \<noteq> None"
  shows "swr_key pathname w =
     Some (NotificationsUrl (user_id (the (user w))) (the (lastCheckedNotifications w)))"
  using assms by (simp add: swr_key_def split: if_splits)

text \<open>For sessions whose user id is not empty, the key is \<^verbatim>\<open>null\<close> exactly when the
  current screen is \<^verbatim>\<open>/notifications\<close>, or there is no active session, or
  \<open>lastCheckedNotifications\<close> is \<^verbatim>\<open>null\<close>.\<close>

lemma swr_key_session:
  assumes "\<forall>u. user w = Some u \<longrightarrow> user_id u \<noteq> []"
  shows "(swr_key pathname w = None) =
     (pathname = ''/notifications'' \<or> user w = None \<or> lastCheckedNotifications w = None)"
  using assms by (cases "user w") (auto simp add: swr_key_def)

text \<open>
  Where \<^verbatim>\<open>handleUserAuth\<close> adds no key pair to the store and no fetch is rejected, the
  known sessions after the completed call are the sessions of the enumerated key pairs that
  resolve, in the order of the enumeration.
\<close>

lemma users_of_enumerated:
  assumes "ls_available w" and "pending w = []"
    and "case candidate force w of None \<Rightarrow> True | Some k \<Rightarrow> listed k (ls_keyPairs w)"
    and "Rejected \<notin> fetchUserForKey fetchJSON ` set (ls_keyPairs w)"
  shows "ls_keyPairs (handleUserAuth_completed fetchJSON force w) = ls_keyPairs w
       \<and> users (handleUserAuth_completed fetchJSON force w)
           = List.map_filter (session_of fetchJSON)
               (ls_keyPairs (handleUserAuth_completed fetchJSON force w))"
proof (cases "candidate force w")
  case None
  with assms(4) show ?thesis
    by (simp add: handleUserAuth_completed_keyPairs [OF assms(1,2)]
          handleUserAuth_completed_users [OF assms(1,2)])
next
  case (Some k)
  with assms(3) have "listed k (ls_keyPairs w)"
    by simp
  with Some assms(4) show ?thesis
    by (simp add: handleUserAuth_completed_keyPairs [OF assms(1,2)]
          handleUserAuth_completed_users [OF assms(1,2)])
qed

text \<open>
  C1 fails on the code.  \<^verbatim>\<open>handleUserAuth(kpA)\<close> on an empty store, with \<open>kpA\<close>
  resolving: the call adds \<open>kpA\<close> to the store, but the bulk resolution runs over the list
  read before \<^verbatim>\<open>addKeyPair\<close>, so that the known sessions have no entry for \<open>kpA\<close>.
\<close>

theorem forced_key_pair_not_among_users:
  "ls_keyPairs (handleUserAuth_completed (fetch_of [(''A'', Fulfilled (Some userA))])
      (Some kpA) (initial None [] None True)) = [kpA]
   \<and> session_of (fetch_of [(''A'', Fulfilled (Some userA))]) kpA = Some (with_keyPair userA kpA)
   \<and> users (handleUserAuth_completed (fetch_of [(''A'', Fulfilled (Some userA))])
      (Some kpA) (initial None [] None True)) = []"
  by (simp add: handleUserAuth_completed_keyPairs handleUserAuth_completed_users
        candidate_def listed_def session_of_def example_defs)

text \<open>
  One rejected fetch rejects the \<^verbatim>\<open>Promise.all\<close>, and its callback never runs: the
  known sessions stay as they were, here without the session of \<open>kpA\<close>, which resolves.
\<close>

lemma users_stale_after_rejection:
  "session_of (fetch_of [(''A'', Fulfilled (Some userA)), (''B'', Rejected)]) kpA
     = Some (with_keyPair userA kpA)
   \<and> users (handleUserAuth_completed (fetch_of [(''A'', Fulfilled (Some userA)), (''B'', Rejected)])
      None (initial (Some kpA) [kpA, kpB] None True)) = []"
  by (simp add: handleUserAuth_completed_users session_of_def example_defs)

text \<open>
  When the persisted active key pair, if there is one, is among the enumerated key pairs, a
  second completed call of \<^verbatim>\<open>handleUserAuth()\<close> changes nothing.
\<close>

lemma handleUserAuth_completed_again:
  assumes av: "ls_available w" and p: "pending w = []"
    and l: "\<forall>k. ls_keyPair w = Some k \<longrightarrow> listed k (ls_keyPairs w)"
  shows "handleUserAuth_completed f None (handleUserAuth_completed f None w)
       = handleUserAuth_completed f None w"
proof (cases "candidate None w")
  case None
  then have n: "ls_keyPair w = None" "ls_keyPairs w = []"
    by (simp_all add: candidate_def split: option.splits list.splits)
  let ?w' = "w\<lparr>loading := False, user := None, users := [], pending := []\<rparr>"
  have 1: "handleUserAuth_completed f None w = ?w'"
    by (rule handleUserAuth_completed_no_candidate [OF av p None])
  have "candidate None ?w' = None"
    using n by (simp add: candidate_def)
  then have "handleUserAuth_completed f None ?w'
           = ?w'\<lparr>loading := False, user := None, users := [], pending := []\<rparr>"
    using av by (intro handleUserAuth_completed_no_candidate) simp_all
  then show ?thesis
    by (simp add: 1)
next
  case (Some k)
  have lk: "listed k (ls_keyPairs w)"
    using Some l
    by (auto simp add: candidate_def listed_def split: option.splits list.splits)
  let ?H = "handleUserAuth_completed f None w"
  have av': "ls_available ?H"
    using av p Some
    by (simp add: handleUserAuth_completed_candidate run_task_FetchUsers_frame
          run_task_ManageUser_frame)
  have p': "pending ?H = []"
    using av p Some
    by (simp add: handleUserAuth_completed_candidate run_task_FetchUsers_frame
          run_task_ManageUser_frame)
  have ks': "ls_keyPairs ?H = ls_keyPairs w"
    using Some lk by (simp add: handleUserAuth_completed_keyPairs [OF av p])
  have kp': "ls_keyPair ?H = ls_keyPair w \<or> ls_keyPair ?H = Some k"
    using Some by (simp add: handleUserAuth_completed_keyPair [OF av p] split: option.splits)
  have c': "candidate None ?H = Some k"
    using kp' ks' Some by (auto simp add: candidate_def split: option.splits list.splits)
  have same: "publicKey (the (ls_keyPair ?H)) = publicKey k \<and> ls_keyPair ?H \<noteq> None"
    if "session_of f k \<noteq> None"
    using that Some
    by (auto simp add: handleUserAuth_completed_keyPair [OF av p] candidate_def
          split: option.splits list.splits)
  have u: "user (handleUserAuth_completed f None ?H) = user ?H"
    using c' Some
    by (simp add: handleUserAuth_completed_user [OF av' p'] handleUserAuth_completed_user [OF av p]
          split: option.splits)
  have us: "users (handleUserAuth_completed f None ?H) = users ?H"
    by (simp add: handleUserAuth_completed_users [OF av' p'] ks'
          handleUserAuth_completed_users [OF av p])
  have lo: "loading (handleUserAuth_completed f None ?H) = loading ?H"
    using c' Some
    by (simp add: handleUserAuth_completed_loading [OF av' p']
          handleUserAuth_completed_loading [OF av p])
  have er: "error (handleUserAuth_completed f None ?H) = error ?H"
    by (simp add: handleUserAuth_completed_error [OF av' p'])
  have ks: "ls_keyPairs (handleUserAuth_completed f None ?H) = ls_keyPairs ?H"
    using c' lk by (simp add: handleUserAuth_completed_keyPairs [OF av' p'] ks')
  have kp: "ls_keyPair (handleUserAuth_completed f None ?H) = ls_keyPair ?H"
    using c' same
    by (auto simp add: handleUserAuth_completed_keyPair [OF av' p'] split: option.splits)
  have rest: "lastCheckedNotifications (handleUserAuth_completed f None ?H)
               = lastCheckedNotifications ?H
      \<and> timelineCursor (handleUserAuth_completed f None ?H) = timelineCursor ?H
      \<and> ls_lastChecked (handleUserAuth_completed f None ?H) = ls_lastChecked ?H
      \<and> ls_available (handleUserAuth_completed f None ?H) = ls_available ?H
      \<and> pending (handleUserAuth_completed f None ?H) = pending ?H
      \<and> world.more (handleUserAuth_completed f None ?H) = world.more ?H"
    using av' p' c' p'
    by (simp add: handleUserAuth_completed_candidate [OF av' p' c'] run_task_FetchUsers
          run_task_ManageUser user_effect_def io_defs split: promise.splits option.splits)
  from u us lo er ks kp rest show ?thesis
    by (intro world.equality) simp_all
qed

text \<open>
  C3 fails on the code.  With \<open>kpA\<close> persisted as the active key pair but not enumerated,
  and resolving, the first completed call adds \<open>kpA\<close> to the store and resolves the list
  read before that, the second resolves the list with \<open>kpA\<close>: the known sessions differ.
\<close>

theorem second_call_changes_users:
  "users (handleUserAuth_completed (fetch_of [(''A'', Fulfilled (Some userA))]) None
      (initial (Some kpA) [] None True)) = []
   \<and> users (handleUserAuth_completed (fetch_of [(''A'', Fulfilled (Some userA))]) None
        (handleUserAuth_completed (fetch_of [(''A'', Fulfilled (Some userA))]) None
          (initial (Some kpA) [] None True))) = [with_keyPair userA kpA]"
proof -
  let ?f = "fetch_of [(''A'', Fulfilled (Some userA))]"
  let ?w = "initial (Some kpA) [] None True"
  let ?H = "handleUserAuth_completed ?f None ?w"
  have av: "ls_available ?w" and p: "pending ?w = []"
    by (simp_all add: initial_def)
  have c: "candidate None ?w = Some kpA"
    by (simp add: candidate_def initial_def)
  have 1: "users ?H = []"
    by (simp add: handleUserAuth_completed_users [OF av p]) (simp add: initial_def)
  have av': "ls_available ?H" and p': "pending ?H = []"
    by (simp_all add: handleUserAuth_completed_candidate [OF av p c] run_task_FetchUsers_frame
          run_task_ManageUser_frame) (simp add: initial_def)
  have ks: "ls_keyPairs ?H = [kpA]"
    by (simp add: handleUserAuth_completed_keyPairs [OF av p] c) (simp add: initial_def listed_def)
  have 2: "users (handleUserAuth_completed ?f None ?H) = [with_keyPair userA kpA]"
    by (simp add: handleUserAuth_completed_users [OF av' p'] ks)
       (simp add: session_of_def example_defs)
  from 1 2 show ?thesis by simp
qed

text \<open>
  When the profile of the candidate key pair does not resolve, the completed call leaves the
  active session and \<open>error\<close> as they were; \<open>loading\<close> ends false when the fetch
  returned no profile, and stays true when the fetch was rejected.
\<close>

lemma unresolved_candidate:
  assumes "ls_available w" and "pending w = []"
    and "candidate force w = Some k" and "session_of fetchJSON k = None"
  shows "user (handleUserAuth_completed fetchJSON force w) = user w
       \<and> error (handleUserAuth_completed fetchJSON force w) = error w
       \<and> loading (handleUserAuth_completed fetchJSON force w)
           = (fetchUserForKey fetchJSON k = Rejected)"
  using assms(3,4)
  by (simp add: handleUserAuth_completed_user [OF assms(1,2)]
        handleUserAuth_completed_error [OF assms(1,2)]
        handleUserAuth_completed_loading [OF assms(1,2)])

text \<open>
  C6 fails on the code.  The fetch for the active key pair \<open>kpA\<close> is rejected: the
  \<^verbatim>\<open>await\<close> in \<^verbatim>\<open>manageUser\<close> throws, \<^verbatim>\<open>setLoading(false)\<close> is not reached, and
  \<open>loading\<close> stays true; the active session and \<open>error\<close> are as before.
\<close>

theorem rejected_fetch_keeps_loading:
  "fetchUserForKey (fetch_of [(''A'', Rejected)]) kpA = Rejected
   \<and> loading (handleUserAuth_completed (fetch_of [(''A'', Rejected)]) None
        ((initial (Some kpA) [kpA] None True)\<lparr>loading := False\<rparr>)) = True
   \<and> user (handleUserAuth_completed (fetch_of [(''A'', Rejected)]) None
        ((initial (Some kpA) [kpA] None True)\<lparr>loading := False\<rparr>)) = None
   \<and> error (handleUserAuth_completed (fetch_of [(''A'', Rejected)]) None
        ((initial (Some kpA) [kpA] None True)\<lparr>loading := False\<rparr>)) = None"
  by (simp add: handleUserAuth_completed_user handleUserAuth_completed_error
        handleUserAuth_completed_loading candidate_def session_of_def example_defs)

end
